theory Spec2Isabelle
  imports Complex_Main
begin

section \<open>JavaScript values read by the smart-features service\<close>

text \<open>
  The service (\<^verbatim>\<open>backend/services/ai/smartFeatures.js\<close>) works on plain row objects.
  A property of a row is either missing (\<^verbatim>\<open>undefined\<close>), \<^verbatim>\<open>null\<close>, or holds a value;
  the three behave differently under \<^verbatim>\<open>new Date(x)\<close> and under \<^verbatim>\<open>x < 80\<close>, so the
  model keeps them apart.
\<close>

datatype 'a field = Undefined | Null | Val 'a

text \<open>
  Truthiness as used by \<^verbatim>\<open>x && ...\<close> and \<^verbatim>\<open>x || 0\<close>: \<^verbatim>\<open>undefined\<close> and \<^verbatim>\<open>null\<close> are
  falsy, an array is always truthy, a number is truthy unless it is zero.
\<close>

fun truthy_array :: "'a list field \<Rightarrow> bool" where
  "truthy_array (Val xs) = True"
| "truthy_array _ = False"

fun truthy_number :: "'a::zero field \<Rightarrow> bool" where
  "truthy_number (Val x) = (x \<noteq> 0)"
| "truthy_number _ = False"

text \<open>
  \<^verbatim>\<open>x < c\<close> for a property holding an integer: \<^verbatim>\<open>undefined\<close> converts to NaN and
  every comparison with NaN is false; \<^verbatim>\<open>null\<close> converts to 0.
\<close>

fun field_lt :: "int field \<Rightarrow> int \<Rightarrow> bool" where
  "field_lt Undefined c = False"
| "field_lt Null c = (0 < c)"
| "field_lt (Val p) c = (p < c)"

text \<open>
  A date is its time value: milliseconds since the epoch, or NaN for an invalid date
  (\<open>None\<close>).  \<^verbatim>\<open>new Date(undefined)\<close> is invalid, \<^verbatim>\<open>new Date(null)\<close> is the epoch.  A
  property that holds a date is modelled by the time value of that date.
\<close>

fun newDate :: "int field \<Rightarrow> int option" where
  "newDate Undefined = None"
| "newDate Null = Some 0"
| "newDate (Val t) = Some t"

definition msPerDay :: int where
  "msPerDay = 1000 * 60 * 60 * 24"

text \<open>
  \<^verbatim>\<open>Math.ceil(d / (1000 * 60 * 60 * 24))\<close> for an integer number \<open>d\<close> of milliseconds.  The
  quotient is taken exactly (rounding of the double division is not modelled).  A result of
  \<^verbatim>\<open>-0\<close> compares and prints like \<open>0\<close>, so it is \<open>0\<close> here.
\<close>

definition ceilDays :: "int \<Rightarrow> int" where
  "ceilDays d = - ((- d) div msPerDay)"

text \<open>
  \<^verbatim>\<open>Math.ceil((new Date(x) - now) / (1000 * 60 * 60 * 24))\<close>, where \<open>now\<close> is the value that
  \<^verbatim>\<open>new Date()\<close> read from the system clock.  \<open>None\<close> is NaN.
\<close>

definition daysUntil :: "int \<Rightarrow> int field \<Rightarrow> int option" where
  "daysUntil now x = (case newDate x of None \<Rightarrow> None | Some t \<Rightarrow> Some (ceilDays (t - now)))"

text \<open>Comparisons of a possibly-NaN number with a constant: false on NaN.\<close>

fun num_lt :: "int option \<Rightarrow> int \<Rightarrow> bool" where
  "num_lt None c = False"
| "num_lt (Some n) c = (n < c)"

fun num_le :: "int option \<Rightarrow> int \<Rightarrow> bool" where
  "num_le None c = False"
| "num_le (Some n) c = (n \<le> c)"

fun num_gt :: "int option \<Rightarrow> int \<Rightarrow> bool" where
  "num_gt None c = False"
| "num_gt (Some n) c = (n > c)"

text \<open>Decimal rendering of integers inside template strings.\<close>

fun show_nat :: "nat \<Rightarrow> string" where
  "show_nat n =
     (if n < 10 then [''0123456789'' ! n]
      else show_nat (n div 10) @ [''0123456789'' ! (n mod 10)])"

declare show_nat.simps [simp del]

definition show_int :: "int \<Rightarrow> string" where
  "show_int i = (if i < 0 then ''-'' @ show_nat (nat (- i)) else show_nat (nat i))"


section \<open>Rows\<close>

text \<open>
  The completion predictor reads \<^verbatim>\<open>created_at\<close>, \<^verbatim>\<open>due_date\<close> and \<^verbatim>\<open>progress\<close> of its
  argument; a task row has these and more.  The service never assigns to a property of a
  row, so rows are values.
\<close>

record item =
  created_at :: "int field"
  due_date :: "int field"
  progress :: "int field"

record task = item +
  task_id :: int
  status :: string
  priority :: string
  estimated_hours :: "rat field"
  assigned_to :: "int field"
  depends_on :: "int list field"
  tags :: "string list field"

record member =
  member_id :: int
  name :: string
  skills :: "string list field"


section \<open>Risk scorer\<close>

text \<open>\<^verbatim>\<open>task.depends_on && task.depends_on.length > 0\<close>\<close>

definition has_dependencies :: "task \<Rightarrow> bool" where
  "has_dependencies t =
     (truthy_array (depends_on t) \<and> (case depends_on t of Val ds \<Rightarrow> length ds > 0 | _ \<Rightarrow> False))"

text \<open>
  \<^verbatim>\<open>task.estimated_hours && daysUntilDue > 0\<close> and then
  \<^verbatim>\<open>task.estimated_hours / 6 > daysUntilDue\<close>.
\<close>

definition hours_exceed :: "task \<Rightarrow> int option \<Rightarrow> bool" where
  "hours_exceed t daysUntilDue =
     (truthy_number (estimated_hours t) \<and> num_gt daysUntilDue 0 \<and>
      (case (estimated_hours t, daysUntilDue) of
         (Val h, Some d) \<Rightarrow> h / 6 > of_int d
       | _ \<Rightarrow> False))"

text \<open>
  \<^verbatim>\<open>calculateRiskScore(task)\<close>.  The source starts from \<^verbatim>\<open>score = 0\<close>, runs five
  statements that add to it, in this order, and returns \<^verbatim>\<open>Math.min(10, score)\<close>.  The
  function reads the clock once; \<open>now\<close> is that reading.
\<close>

definition calculateRiskScore :: "int \<Rightarrow> task \<Rightarrow> int" where
  "calculateRiskScore now t =
     (let score = 0;
          daysUntilDue = daysUntil now (due_date t);
          score = (if num_lt daysUntilDue 0 then score + 5 else score);
          score = (if num_le daysUntilDue 1 \<and> field_lt (progress t) 80 then score + 4
                   else if num_le daysUntilDue 3 \<and> field_lt (progress t) 50 then score + 3
                   else score);
          score = (if priority t = ''high'' \<and> field_lt (progress t) 30 then score + 2
                   else score);
          score = (if has_dependencies t then score + 1 else score);
          score = (if hours_exceed t daysUntilDue then score + 2 else score)
      in min 10 score)"

text \<open>\<^verbatim>\<open>${daysUntilDue}\<close> and \<^verbatim>\<open>${task.progress}\<close> inside a template string.\<close>

fun show_num :: "int option \<Rightarrow> string" where
  "show_num None = ''NaN''"
| "show_num (Some n) = show_int n"

fun show_progress :: "int field \<Rightarrow> string" where
  "show_progress Undefined = ''undefined''"
| "show_progress Null = ''null''"
| "show_progress (Val p) = show_int p"

text \<open>\<^verbatim>\<open>getRiskReasons(task, score)\<close>; the \<^verbatim>\<open>score\<close> argument is not used by the source.\<close>

definition getRiskReasons :: "int \<Rightarrow> task \<Rightarrow> int \<Rightarrow> string list" where
  "getRiskReasons now t score =
     (let daysUntilDue = daysUntil now (due_date t);
          reasons = [];
          reasons =
            (if num_lt daysUntilDue 0
             then reasons @ [''Overdue by '' @ show_num (map_option abs daysUntilDue) @ '' day(s)'']
             else if num_le daysUntilDue 1
             then reasons @ [''Due in '' @ show_num daysUntilDue @ '' day(s)'']
             else reasons);
          reasons =
            (if field_lt (progress t) 50 \<and> num_le daysUntilDue 3
             then reasons @ [''Only '' @ show_progress (progress t) @ ''% complete'']
             else reasons);
          reasons = (if priority t = ''high'' then reasons @ [''High priority''] else reasons);
          reasons = (if has_dependencies t then reasons @ [''Has dependencies''] else reasons)
      in reasons)"

record risk_entry =
  task :: task
  riskScore :: int
  severity :: string
  reasons :: "string list"

text \<open>
  \<^verbatim>\<open>scores.sort((a, b) => b.score - a.score)\<close>, and the same call with \<^verbatim>\<open>riskScore\<close> and
  \<^verbatim>\<open>taskCount\<close>.  \<^verbatim>\<open>Array.prototype.sort\<close> is stable (ECMAScript 2019, Node 11 and
  later) and the comparator is consistent, so the result is the one stable arrangement in
  descending order of the key, whatever algorithm the engine runs.  \<open>insert_desc\<close> puts
  \<open>x\<close> in front of the first \<open>y\<close> for which the comparator called on \<open>x\<close> and \<open>y\<close> is not
  positive.
\<close>

fun insert_desc :: "('a \<Rightarrow> int) \<Rightarrow> 'a \<Rightarrow> 'a list \<Rightarrow> 'a list" where
  "insert_desc key x [] = [x]"
| "insert_desc key x (y # ys) =
     (if key y - key x \<le> 0 then x # y # ys else y # insert_desc key x ys)"

definition sort_desc :: "('a \<Rightarrow> int) \<Rightarrow> 'a list \<Rightarrow> 'a list" where
  "sort_desc key xs = foldr (insert_desc key) xs []"

text \<open>One iteration of the \<^verbatim>\<open>forEach\<close> body of \<^verbatim>\<open>detectRisks\<close>.\<close>

definition risk_step :: "int \<Rightarrow> task \<Rightarrow> risk_entry list \<Rightarrow> risk_entry list" where
  "risk_step now t risks =
     (let score = calculateRiskScore now t in
      if score \<ge> 7
      then risks @ [\<lparr>task = t, riskScore = score, severity = ''high'',
                     reasons = getRiskReasons now t score\<rparr>]
      else if score \<ge> 4
      then risks @ [\<lparr>task = t, riskScore = score, severity = ''medium'',
                     reasons = getRiskReasons now t score\<rparr>]
      else risks)"

text \<open>
  \<^verbatim>\<open>detectRisks(tasks)\<close>.  Every clock reading made during one call is taken to be the
  same instant \<open>now\<close>.
\<close>

definition detectRisks :: "int \<Rightarrow> task list \<Rightarrow> risk_entry list" where
  "detectRisks now tasks = sort_desc riskScore (foldl (\<lambda>risks t. risk_step now t risks) [] tasks)"


section \<open>Completion predictor\<close>

text \<open>
  The predictor computes in JavaScript numbers, which are IEEE 754 binary64 values: the
  finite doubles, both zeros, both infinities and NaN.  A finite non-zero double is held
  as the rational it denotes; \<open>Fin 0\<close> is \<^verbatim>\<open>+0\<close>.  Every arithmetic operation returns the
  double nearest to the exact result, ties going to the even significand (\<open>to_double\<close>).
\<close>

datatype jsnum = Fin rat | NegZero | PosInf | NegInf | NaN

fun is_inf :: "jsnum \<Rightarrow> bool" where
  "is_inf PosInf = True"
| "is_inf NegInf = True"
| "is_inf _ = False"

fun is_zero :: "jsnum \<Rightarrow> bool" where
  "is_zero (Fin x) = (x = 0)"
| "is_zero NegZero = True"
| "is_zero _ = False"

fun sign_bit :: "jsnum \<Rightarrow> bool" where
  "sign_bit (Fin x) = (x < 0)"
| "sign_bit NegZero = True"
| "sign_bit NegInf = True"
| "sign_bit _ = False"

fun fin_val :: "jsnum \<Rightarrow> rat" where
  "fin_val (Fin x) = x"
| "fin_val _ = 0"

definition mk_zero :: "bool \<Rightarrow> jsnum" where
  "mk_zero s = (if s then NegZero else Fin 0)"

definition mk_inf :: "bool \<Rightarrow> jsnum" where
  "mk_inf s = (if s then NegInf else PosInf)"

text \<open>The number of binary digits of a positive integer.\<close>

function bit_length :: "int \<Rightarrow> int" where
  "bit_length n = (if n \<le> 0 then 0 else 1 + bit_length (n div 2))"
  by pat_completeness auto
termination
  by (relation "measure nat") auto

declare bit_length.simps [simp del]

definition pow2 :: "int \<Rightarrow> rat" where
  "pow2 k = (if 0 \<le> k then 2 ^ nat k else 1 / 2 ^ nat (- k))"

text \<open>
  The binary exponent of a non-zero rational: the \<open>e\<close> with \<open>2^e \<le> |x| < 2^(e+1)\<close>.  The
  difference of the bit lengths of numerator and denominator is \<open>e\<close> or \<open>e + 1\<close>.
\<close>

definition exponent_of :: "rat \<Rightarrow> int" where
  "exponent_of x =
     (let (p, q) = quotient_of \<bar>x\<bar>;
          d = bit_length p - bit_length q
      in if pow2 d \<le> \<bar>x\<bar> then d else d - 1)"

definition round_half_even :: "rat \<Rightarrow> int" where
  "round_half_even y =
     (let f = \<lfloor>y\<rfloor>; r = y - of_int f
      in if r < 1 / 2 then f else if 1 / 2 < r then f + 1 else if even f then f else f + 1)"

text \<open>
  Rounding a rational to binary64.  The doubles around \<open>x\<close> are the multiples of \<open>2^q\<close>,
  where \<open>q\<close> is the exponent of \<open>x\<close> less the 52 fraction bits, and not below \<open>-1074\<close>
  (the subnormal spacing); \<open>m\<close> is the nearest multiple.  A result of \<open>2^1024\<close> or more is
  an infinity, a result of no multiple at all is a zero with the sign of \<open>x\<close>.
\<close>

definition to_double :: "rat \<Rightarrow> jsnum" where
  "to_double x =
     (if x = 0 then Fin 0
      else let e = exponent_of x;
               q = max (e - 52) (- 1074);
               m = round_half_even (\<bar>x\<bar> / pow2 q)
           in if m = 0 then mk_zero (x < 0)
              else if 971 < q \<or> (q = 971 \<and> m = 2 ^ 53) then mk_inf (x < 0)
              else Fin ((if x < 0 then - 1 else 1) * of_int m * pow2 q))"

text \<open>
  The result of an operation whose exact value is \<open>v\<close>: rounded to a double; an exact
  zero takes the sign \<open>s\<close> that the operation gives it.
\<close>

definition rounded :: "bool \<Rightarrow> rat \<Rightarrow> jsnum" where
  "rounded s v = (if v = 0 then mk_zero s else to_double v)"

definition js_div :: "jsnum \<Rightarrow> jsnum \<Rightarrow> jsnum" where
  "js_div a b =
     (if a = NaN \<or> b = NaN then NaN
      else if (is_inf a \<and> is_inf b) \<or> (is_zero a \<and> is_zero b) then NaN
      else if is_inf a \<or> is_zero b then mk_inf (sign_bit a \<noteq> sign_bit b)
      else if is_inf b then mk_zero (sign_bit a \<noteq> sign_bit b)
      else rounded (sign_bit a \<noteq> sign_bit b) (fin_val a / fin_val b))"

definition js_mul :: "jsnum \<Rightarrow> jsnum \<Rightarrow> jsnum" where
  "js_mul a b =
     (if a = NaN \<or> b = NaN then NaN
      else if (is_inf a \<and> is_zero b) \<or> (is_zero a \<and> is_inf b) then NaN
      else if is_inf a \<or> is_inf b then mk_inf (sign_bit a \<noteq> sign_bit b)
      else rounded (sign_bit a \<noteq> sign_bit b) (fin_val a * fin_val b))"

definition js_sub :: "jsnum \<Rightarrow> jsnum \<Rightarrow> jsnum" where
  "js_sub a b =
     (if a = NaN \<or> b = NaN then NaN
      else if is_inf a \<and> is_inf b then (if a = b then NaN else a)
      else if is_inf a then a
      else if is_inf b then mk_inf (\<not> sign_bit b)
      else rounded (a = NegZero \<and> b = Fin 0) (fin_val a - fin_val b))"

text \<open>\<^verbatim>\<open>a < b\<close> and \<^verbatim>\<open>a >= b\<close>: false as soon as one side is NaN; the zeros are equal.\<close>

definition js_lt :: "jsnum \<Rightarrow> jsnum \<Rightarrow> bool" where
  "js_lt a b =
     (if a = NaN \<or> b = NaN then False
      else if a = NegInf then b \<noteq> NegInf
      else if b = PosInf then a \<noteq> PosInf
      else if a = PosInf \<or> b = NegInf then False
      else fin_val a < fin_val b)"

definition js_ge :: "jsnum \<Rightarrow> jsnum \<Rightarrow> bool" where
  "js_ge a b = (a \<noteq> NaN \<and> b \<noteq> NaN \<and> \<not> js_lt a b)"

text \<open>
  \<^verbatim>\<open>Math.round\<close>: the nearest integer, ties upwards; \<^verbatim>\<open>-0\<close> for arguments in
  \<open>[-1/2, 0)\<close>; the special values are returned as they are.
\<close>

fun js_round :: "jsnum \<Rightarrow> jsnum" where
  "js_round (Fin x) = (if - (1 / 2) \<le> x \<and> x < 0 then NegZero else Fin (of_int \<lfloor>x + 1 / 2\<rfloor>))"
| "js_round n = n"

text \<open>
  \<^verbatim>\<open>Math.ceil((a - b) / (1000 * 60 * 60 * 24))\<close> for two dates, with the sign of a zero
  result: the quotient of a negative difference shorter than a day rounds up to \<^verbatim>\<open>-0\<close>.
\<close>

definition daysBetween :: "int option \<Rightarrow> int option \<Rightarrow> jsnum" where
  "daysBetween a b =
     (case (a, b) of
        (Some x, Some y) \<Rightarrow>
          (if x - y < 0 \<and> ceilDays (x - y) = 0 then NegZero else Fin (of_int (ceilDays (x - y))))
      | _ \<Rightarrow> NaN)"

text \<open>\<^verbatim>\<open>item.progress || 0\<close>\<close>

definition progress_or_zero :: "int field \<Rightarrow> jsnum" where
  "progress_or_zero p = (if truthy_number p then (case p of Val x \<Rightarrow> Fin (of_int x) | _ \<Rightarrow> Fin 0) else Fin 0)"

record metrics =
  expectedProgress :: jsnum
  actualProgress :: jsnum
  progressDelta :: jsnum
  daysRemaining :: jsnum

record prediction =
  pred_status :: string
  confidence :: int
  recommendation :: string
  pred_metrics :: metrics

text \<open>
  \<^verbatim>\<open>predictCompletion(item)\<close>; \<open>now\<close> is the value read by \<^verbatim>\<open>new Date()\<close> in its
  first line.  The result properties \<^verbatim>\<open>status\<close> and \<^verbatim>\<open>metrics\<close> are the fields
  \<open>pred_status\<close> and \<open>pred_metrics\<close>.
\<close>

definition predictCompletion :: "int \<Rightarrow> 'a item_scheme \<Rightarrow> prediction" where
  "predictCompletion now_ms it =
     (let now = Some now_ms;
          startDate = newDate (created_at it);
          dueDate = newDate (due_date it);
          totalDays = daysBetween dueDate startDate;
          daysElapsed = daysBetween now startDate;
          daysRemaining = daysBetween dueDate now;
          expectedProgress = js_mul (js_div daysElapsed totalDays) (Fin 100);
          actualProgress = progress_or_zero (progress it);
          progressDelta = js_sub actualProgress expectedProgress;
          (status, confidence, recommendation) =
            (if js_lt daysRemaining (Fin 0)
             then (''overdue'', 100, ''Immediate action required'')
             else if js_ge progressDelta (Fin 10)
             then (''ahead_of_schedule'', 90, ''On track, maintain momentum'')
             else if js_ge progressDelta (Fin (- 10))
             then (''on_track'', 80, ''Progressing well'')
             else if js_ge progressDelta (Fin (- 25))
             then (''at_risk'', 70, ''May need additional resources'')
             else (''behind_schedule'', 85, ''Requires immediate attention''))
      in \<lparr>pred_status = status, confidence = confidence, recommendation = recommendation,
          pred_metrics = \<lparr>expectedProgress = js_round expectedProgress,
                          actualProgress = js_round actualProgress,
                          progressDelta = js_round progressDelta,
                          daysRemaining = daysRemaining\<rparr>\<rparr>)"


section \<open>Assignee recommender\<close>

text \<open>\<^verbatim>\<open>t.assigned_to === member.id && ['pending', 'in_progress'].includes(t.status)\<close>\<close>

definition is_member_task :: "member \<Rightarrow> task \<Rightarrow> bool" where
  "is_member_task m t =
     (assigned_to t = Val (member_id m) \<and> status t \<in> set [''pending'', ''in_progress''])"

definition memberTasksOf :: "member \<Rightarrow> task list \<Rightarrow> task list" where
  "memberTasksOf m existingTasks = filter (is_member_task m) existingTasks"

text \<open>\<^verbatim>\<open>reasons.join(', ')\<close>\<close>

fun join_comma :: "string list \<Rightarrow> string" where
  "join_comma [] = []"
| "join_comma [x] = x"
| "join_comma (x # y # ys) = x @ '', '' @ join_comma (y # ys)"

text \<open>\<^verbatim>\<open>generateReasoning(member, taskCount, overdueCount, score)\<close>\<close>

definition generateReasoning :: "member \<Rightarrow> nat \<Rightarrow> nat \<Rightarrow> int \<Rightarrow> string" where
  "generateReasoning m taskCount overdueCount score =
     (let reasons = [];
          reasons =
            (if taskCount = 0 then reasons @ [''no active tasks'']
             else if taskCount \<le> 2
             then reasons @ [''only '' @ show_nat taskCount @ '' active task'' @
                             (if taskCount > 1 then ''s'' else [])]
             else reasons @ [show_nat taskCount @ '' active tasks'']);
          reasons =
            (if overdueCount > 0 then reasons @ [show_nat overdueCount @ '' overdue'']
             else reasons)
      in if score \<ge> 80 then name m @ '' - Best fit: '' @ join_comma reasons
         else if score \<ge> 50 then name m @ '' - Good fit: '' @ join_comma reasons
         else name m @ '' - Available but busy: '' @ join_comma reasons)"

record candidate =
  member :: member
  score :: int
  activeTasks :: nat
  overdueCount :: nat
  reasoning :: string

text \<open>
  \<^verbatim>\<open>taskData.tags.filter(tag => member.skills.includes(tag)).length\<close>, guarded by
  \<^verbatim>\<open>taskData.tags && member.skills\<close>; no bonus when the guard fails.
\<close>

definition matchingSkills :: "task \<Rightarrow> member \<Rightarrow> nat" where
  "matchingSkills taskData m =
     (if truthy_array (tags taskData) \<and> truthy_array (skills m)
      then (case (tags taskData, skills m) of
              (Val ts, Val sk) \<Rightarrow> length (filter (\<lambda>tag. tag \<in> set sk) ts)
            | _ \<Rightarrow> 0)
      else 0)"

text \<open>
  The callback of \<^verbatim>\<open>teamMembers.map\<close> in \<^verbatim>\<open>suggestAssignee\<close>.  The reasoning string is
  built from the score before it is clamped.  Every \<^verbatim>\<open>new Date()\<close> of one call is taken
  to read the same instant \<open>now\<close>.
\<close>

definition score_member :: "int \<Rightarrow> task \<Rightarrow> task list \<Rightarrow> member \<Rightarrow> candidate" where
  "score_member now taskData existingTasks m =
     (let score = 100;
          memberTasks = memberTasksOf m existingTasks;
          score = score - int (length memberTasks) * 15;
          overdue = length (filter (\<lambda>t. num_lt (newDate (due_date t)) now) memberTasks);
          score = score - int overdue * 25;
          score = score + int (matchingSkills taskData m) * 20;
          upcomingDeadlines =
            length (filter (\<lambda>t. num_le (daysUntil now (due_date t)) 3) memberTasks);
          score = score - int upcomingDeadlines * 10
      in \<lparr>member = m, score = max 0 score, activeTasks = length memberTasks,
          overdueCount = overdue,
          reasoning = generateReasoning m (length memberTasks) overdue score\<rparr>)"

text \<open>The full ranked list: \<^verbatim>\<open>scores\<close> after \<^verbatim>\<open>scores.sort(...)\<close>.\<close>

definition rankedCandidates :: "int \<Rightarrow> task \<Rightarrow> member list \<Rightarrow> task list \<Rightarrow> candidate list" where
  "rankedCandidates now taskData teamMembers existingTasks =
     sort_desc score (map (score_member now taskData existingTasks) teamMembers)"

text \<open>
  \<^verbatim>\<open>suggestAssignee(taskData, teamMembers, existingTasks)\<close> resolves to \<^verbatim>\<open>scores[0]\<close>,
  which is \<^verbatim>\<open>undefined\<close> (\<open>None\<close>) when there is no member.
\<close>

definition suggestAssignee :: "int \<Rightarrow> task \<Rightarrow> member list \<Rightarrow> task list \<Rightarrow> candidate option" where
  "suggestAssignee now taskData teamMembers existingTasks =
     (case rankedCandidates now taskData teamMembers existingTasks of
        [] \<Rightarrow> None
      | best # _ \<Rightarrow> Some best)"


section \<open>Workload balancer\<close>

record workload_entry =
  load_member :: member
  taskCount :: int
  load_tasks :: "task list"

text \<open>
  The two shapes of the result object: \<^verbatim>\<open>needsBalancing: true\<close> with \<^verbatim>\<open>overloaded\<close>,
  \<^verbatim>\<open>underutilized\<close> and \<^verbatim>\<open>suggestion\<close>, or \<^verbatim>\<open>needsBalancing: false\<close> with
  \<^verbatim>\<open>message\<close>.  The property \<^verbatim>\<open>overloaded\<close> is the selector \<open>overloaded_entry\<close>
  (the plain name is a keyword of Isabelle).
\<close>

datatype balancing =
  Rebalance (overloaded_entry: workload_entry) (underutilized: workload_entry) (suggestion: string)
| Balanced (message: string)

fun needsBalancing :: "balancing \<Rightarrow> bool" where
  "needsBalancing (Rebalance _ _ _) = True"
| "needsBalancing (Balanced _) = False"

text \<open>Reading a property of \<^verbatim>\<open>undefined\<close> throws a \<^verbatim>\<open>TypeError\<close>.\<close>

datatype js_error = TypeError

definition member_load :: "task list \<Rightarrow> member \<Rightarrow> workload_entry" where
  "member_load tasks m =
     (let memberTasks = memberTasksOf m tasks
      in \<lparr>load_member = m, taskCount = int (length memberTasks), load_tasks = memberTasks\<rparr>)"

text \<open>The part of \<^verbatim>\<open>suggestWorkloadBalancing\<close> after \<^verbatim>\<open>workload.sort(...)\<close>.\<close>

definition balance_sorted :: "workload_entry list \<Rightarrow> js_error + balancing" where
  "balance_sorted workload =
     (case workload of
        [] \<Rightarrow> Inl TypeError
      | first # _ \<Rightarrow>
          (let maxLoad = taskCount first;
               lowest = workload ! (length workload - 1);
               minLoad = taskCount lowest
           in if maxLoad - minLoad \<ge> 3
              then Inr (Rebalance first lowest
                     (''Consider reassigning tasks from '' @ name (load_member first) @ '' ('' @
                      show_int maxLoad @ '' tasks) to '' @ name (load_member lowest) @ '' ('' @
                      show_int minLoad @ '' tasks)''))
              else Inr (Balanced ''Workload is balanced across team'')))"

text \<open>
  \<^verbatim>\<open>suggestWorkloadBalancing(teamMembers, tasks)\<close>.  With no member \<^verbatim>\<open>workload[0]\<close> is
  \<^verbatim>\<open>undefined\<close> and \<^verbatim>\<open>workload[0].taskCount\<close> throws.
\<close>

definition suggestWorkloadBalancing :: "member list \<Rightarrow> task list \<Rightarrow> js_error + balancing" where
  "suggestWorkloadBalancing teamMembers tasks =
     balance_sorted (sort_desc taskCount (map (member_load tasks) teamMembers))"


section \<open>Definitions that follow the written description\<close>


text \<open>
  The description of the completion predictor: the figures
  \<open>totalDays\<close>, \<open>daysElapsed\<close>, \<open>daysRemaining\<close>, \<open>expectedProgress = (daysElapsed / totalDays) * 100\<close>
  and \<open>progressDelta = actualProgress - expectedProgress\<close>, then five rules of which the
  first that matches wins.
\<close>

definition spec_daysRemaining :: "int \<Rightarrow> 'a item_scheme \<Rightarrow> jsnum" where
  "spec_daysRemaining now it = daysBetween (newDate (due_date it)) (Some now)"

definition spec_expectedProgress :: "int \<Rightarrow> 'a item_scheme \<Rightarrow> jsnum" where
  "spec_expectedProgress now it =
     js_mul (js_div (daysBetween (Some now) (newDate (created_at it)))
                    (daysBetween (newDate (due_date it)) (newDate (created_at it))))
            (Fin 100)"

definition spec_progressDelta :: "int \<Rightarrow> 'a item_scheme \<Rightarrow> jsnum" where
  "spec_progressDelta now it =
     js_sub (progress_or_zero (progress it)) (spec_expectedProgress now it)"

definition classification_rules :: "jsnum \<Rightarrow> jsnum \<Rightarrow> (bool \<times> string \<times> int) list" where
  "classification_rules days delta =
     [(js_lt days (Fin 0), ''overdue'', 100),
      (js_ge delta (Fin 10), ''ahead_of_schedule'', 90),
      (js_ge delta (Fin (- 10)), ''on_track'', 80),
      (js_ge delta (Fin (- 25)), ''at_risk'', 70),
      (True, ''behind_schedule'', 85)]"

fun first_match :: "(bool \<times> 'a) list \<Rightarrow> 'a option" where
  "first_match [] = None"
| "first_match ((c, r) # rules) = (if c then Some r else first_match rules)"


section \<open>Rows used in the worked examples\<close>

text \<open>
  Times are milliseconds since the epoch; \<open>day n\<close> is midnight after \<open>n\<close> days and \<open>noon\<close> is
  twelve hours after the epoch.  \<open>plain_task\<close> fell due at the epoch.
\<close>

definition plain_task :: task where
  "plain_task =
     \<lparr>created_at = Val 0, due_date = Val 0, progress = Val 90, task_id = 1,
      status = ''pending'', priority = ''medium'', estimated_hours = Undefined,
      assigned_to = Undefined, depends_on = Undefined, tags = Undefined\<rparr>"

definition noon :: int where
  "noon = 12 * 60 * 60 * 1000"

definition day :: "int \<Rightarrow> int" where
  "day n = n * 86400000"

definition completed_task :: task where
  "completed_task = plain_task\<lparr>status := ''completed''\<rparr>"

definition example_tasks :: "task list" where
  "example_tasks =
     [plain_task,
      plain_task\<lparr>task_id := 2, progress := Val 10\<rparr>,
      plain_task\<lparr>task_id := 3, due_date := Val (day 10)\<rparr>,
      plain_task\<lparr>task_id := 4\<rparr>]"


definition zero_span_item :: item where
  "zero_span_item = \<lparr>created_at = Val 0, due_date = Val 0, progress = Val 50\<rparr>"

definition ann :: member where
  "ann = \<lparr>member_id = 1, name = ''Ann'', skills = Val [''sql'', ''react'']\<rparr>"

definition bob :: member where
  "bob = \<lparr>member_id = 2, name = ''Bob'', skills = Undefined\<rparr>"

definition cy :: member where
  "cy = \<lparr>member_id = 3, name = ''Cy'', skills = Val []\<rparr>"

definition team_tasks :: "task list" where
  "team_tasks =
     [plain_task\<lparr>task_id := 11, assigned_to := Val 1\<rparr>,
      plain_task\<lparr>task_id := 12, assigned_to := Val 1, due_date := Val (day 30)\<rparr>,
      plain_task\<lparr>task_id := 13, assigned_to := Val 1, status := ''in_progress'',
                 due_date := Val (day 30)\<rparr>,
      plain_task\<lparr>task_id := 14, assigned_to := Val 2, status := ''completed''\<rparr>,
      plain_task\<lparr>task_id := 15, assigned_to := Val 1, due_date := Val (day 30)\<rparr>]"

definition new_task :: task where
  "new_task = plain_task\<lparr>task_id := 20, tags := Val [''sql'']\<rparr>"

definition sprint_item :: item where
  "sprint_item = \<lparr>created_at = Val 0, due_date = Val (day 20), progress = Val 65\<rparr>"

definition month_item :: item where
  "month_item = \<lparr>created_at = Val 0, due_date = Val (day 30), progress = Val 80\<rparr>"


section \<open>The stable descending sort\<close>

abbreviation descending :: "('a \<Rightarrow> int) \<Rightarrow> 'a list \<Rightarrow> bool" where
  "descending key xs \<equiv> sorted_wrt (\<lambda>a b. key b \<le> key a) xs"

lemma set_insert_desc: "set (insert_desc key x xs) = insert x (set xs)"
  by (induction xs) auto

lemma sort_desc_Nil: "sort_desc key [] = []"
  by (simp add: sort_desc_def)

lemma sort_desc_Cons: "sort_desc key (x # xs) = insert_desc key x (sort_desc key xs)"
  by (simp add: sort_desc_def)

lemma set_sort_desc: "set (sort_desc key xs) = set xs"
  by (induction xs) (simp_all add: sort_desc_Nil sort_desc_Cons set_insert_desc)

lemma length_insert_desc: "length (insert_desc key x xs) = Suc (length xs)"
  by (induction xs) auto

lemma length_sort_desc: "length (sort_desc key xs) = length xs"
  by (induction xs) (simp_all add: sort_desc_Nil sort_desc_Cons length_insert_desc)

lemma descending_insert_desc: "descending key xs \<Longrightarrow> descending key (insert_desc key x xs)"
  by (induction xs) (auto simp: set_insert_desc)

lemma descending_sort_desc: "descending key (sort_desc key xs)"
  by (induction xs) (simp_all add: sort_desc_Nil sort_desc_Cons descending_insert_desc)

lemma filter_insert_desc_other:
  "\<not> P x \<Longrightarrow> filter P (insert_desc key x xs) = filter P xs"
  by (induction xs) auto

lemma filter_insert_desc_same:
  "descending key xs \<Longrightarrow>
   filter (\<lambda>y. key y = key x) (insert_desc key x xs) = x # filter (\<lambda>y. key y = key x) xs"
  by (induction xs) auto

text \<open>Elements with the same key keep the order they had before the sort.\<close>

lemma sort_desc_stable:
  "filter (\<lambda>y. key y = k) (sort_desc key xs) = filter (\<lambda>y. key y = k) xs"
proof (induction xs)
  case Nil
  show ?case by (simp add: sort_desc_Nil)
next
  case (Cons x xs)
  show ?case
  proof (cases "key x = k")
    case True
    then show ?thesis
      using Cons descending_sort_desc [of key xs]
        filter_insert_desc_same [of key "sort_desc key xs" x]
      by (simp add: sort_desc_Cons)
  next
    case False
    then show ?thesis
      using Cons by (simp add: sort_desc_Cons filter_insert_desc_other)
  qed
qed


lemma sort_desc_eq_Nil: "sort_desc key xs = [] \<longleftrightarrow> xs = []"
  using length_sort_desc [of key xs] by (metis length_0_conv)

lemma head_is_greatest:
  assumes "sort_desc key xs = y # ys" and "x \<in> set xs"
  shows "key x \<le> key y"
proof -
  have "descending key (y # ys)" using descending_sort_desc [of key xs] assms(1) by simp
  moreover have "x \<in> set (y # ys)" using set_sort_desc [of key xs] assms by simp
  ultimately show ?thesis by auto
qed

lemma last_is_least:
  assumes "xs \<noteq> []" and "x \<in> set xs"
  shows "key (last (sort_desc key xs)) \<le> key x"
proof -
  have ne: "sort_desc key xs \<noteq> []" using assms(1) by (simp add: sort_desc_eq_Nil)
  have d: "descending key (sort_desc key xs)" by (rule descending_sort_desc)
  have x: "x \<in> set (sort_desc key xs)" using assms(2) by (simp add: set_sort_desc)
  obtain zs z where zs: "sort_desc key xs = zs @ [z]" using ne by (metis rev_exhaust)
  then have "descending key (zs @ [z])" using d by simp
  then have "\<forall>u \<in> set zs. key z \<le> key u" by (simp add: sorted_wrt_append)
  then show ?thesis using x zs by auto
qed

text \<open>The head of the sorted list is the first element of the input with the greatest key.\<close>

lemma head_is_first_greatest:
  assumes "sort_desc key xs = y # ys"
  shows "\<exists>us vs. xs = us @ y # vs \<and> (\<forall>u \<in> set us. key u < key y) \<and> (\<forall>v \<in> set vs. key v \<le> key y)"
proof -
  have "filter (\<lambda>z. key z = key y) xs = filter (\<lambda>z. key z = key y) (y # ys)"
    using sort_desc_stable [of key "key y" xs] assms by simp
  then have "filter (\<lambda>z. key z = key y) xs = y # filter (\<lambda>z. key z = key y) ys" by simp
  then obtain us vs where xs: "xs = us @ y # vs" and us: "\<forall>u \<in> set us. key u \<noteq> key y"
    unfolding filter_eq_Cons_iff by blast
  have le: "\<forall>x \<in> set xs. key x \<le> key y" using head_is_greatest [OF assms] by blast
  have "\<forall>u \<in> set us. key u < key y"
  proof
    fix u assume "u \<in> set us"
    then have "key u \<le> key y" "key u \<noteq> key y" using le us xs by auto
    then show "key u < key y" by simp
  qed
  moreover have "\<forall>v \<in> set vs. key v \<le> key y" using le xs by auto
  ultimately show ?thesis using xs by blast
qed

text \<open>The last element of the sorted list is the last element of the input with the least key.\<close>

lemma last_is_last_least:
  assumes "xs \<noteq> []"
  shows "\<exists>us vs. xs = us @ last (sort_desc key xs) # vs \<and>
           (\<forall>u \<in> set us. key (last (sort_desc key xs)) \<le> key u) \<and>
           (\<forall>v \<in> set vs. key (last (sort_desc key xs)) < key v)"
proof -
  define z where "z = last (sort_desc key xs)"
  have ne: "sort_desc key xs \<noteq> []" using assms by (simp add: sort_desc_eq_Nil)
  obtain zs where zs: "sort_desc key xs = zs @ [z]"
    using ne z_def by (metis append_butlast_last_id)
  have "filter (\<lambda>w. key w = key z) xs = filter (\<lambda>w. key w = key z) (zs @ [z])"
    using sort_desc_stable [of key "key z" xs] zs by simp
  then have "filter (\<lambda>w. key w = key z) xs = filter (\<lambda>w. key w = key z) zs @ [z]"
    by simp
  then have "filter (\<lambda>w. key w = key z) (rev xs) = z # rev (filter (\<lambda>w. key w = key z) zs)"
    by (simp add: rev_filter [symmetric])
  then obtain us vs where r: "rev xs = us @ z # vs" and us: "\<forall>u \<in> set us. key u \<noteq> key z"
    unfolding filter_eq_Cons_iff by blast
  have "rev (rev xs) = rev (us @ z # vs)" using r by simp
  then have xs: "xs = rev vs @ z # rev us" by simp
  have le: "\<forall>x \<in> set xs. key z \<le> key x"
    using last_is_least [OF assms, of _ key] z_def by blast
  have "\<forall>v \<in> set (rev us). key z < key v"
  proof
    fix v assume v: "v \<in> set (rev us)"
    then have "v \<in> set xs" using xs by simp
    then have "key z \<le> key v" using le by blast
    moreover have "key v \<noteq> key z" using us v by simp
    ultimately show "key z < key v" by simp
  qed
  moreover have "\<forall>u \<in> set (rev vs). key z \<le> key u"
  proof
    fix u assume "u \<in> set (rev vs)"
    then have "u \<in> set xs" using xs by simp
    then show "key z \<le> key u" using le by blast
  qed
  ultimately have "xs = rev vs @ z # rev us \<and> (\<forall>u \<in> set (rev vs). key z \<le> key u) \<and>
      (\<forall>v \<in> set (rev us). key z < key v)" using xs by blast
  then show ?thesis unfolding z_def by blast
qed


section \<open>Day counts\<close>

lemma ceilDays_neg_iff: "ceilDays x < 0 \<longleftrightarrow> x \<le> - msPerDay"
proof -
  have "0 < (- x) div 86400000 \<longleftrightarrow> 86400000 \<le> - x"
    by (rule pos_imp_zdiv_pos_iff) simp
  then show ?thesis unfolding ceilDays_def msPerDay_def by auto
qed

lemma ceilDays_le_zero: "x \<le> 0 \<Longrightarrow> ceilDays x \<le> 0"
  unfolding ceilDays_def msPerDay_def by (simp add: pos_imp_zdiv_nonneg_iff)



section \<open>Risk detection\<close>

lemma risk_fold:
  "foldl (\<lambda>risks t. risk_step now t risks) acc ts =
   acc @ concat (map (\<lambda>t. risk_step now t []) ts)"
proof (induction ts arbitrary: acc)
  case Nil
  show ?case by simp
next
  case (Cons t ts)
  have "risk_step now t acc = acc @ risk_step now t []"
    by (simp add: risk_step_def Let_def)
  then show ?case using Cons by simp
qed

lemma risk_step_Nil:
  "risk_step now t [] =
     (if 4 \<le> calculateRiskScore now t
      then [\<lparr>task = t, riskScore = calculateRiskScore now t,
             severity = (if 7 \<le> calculateRiskScore now t then ''high'' else ''medium''),
             reasons = getRiskReasons now t (calculateRiskScore now t)\<rparr>]
      else [])"
  by (simp add: risk_step_def Let_def)

lemma detectRisks_unsorted:
  "detectRisks now tasks = sort_desc riskScore (concat (map (\<lambda>t. risk_step now t []) tasks))"
  by (simp add: detectRisks_def risk_fold)

lemma entries_by_score:
  "map task (filter (\<lambda>e. riskScore e = k) (concat (map (\<lambda>t. risk_step now t []) tasks))) =
   filter (\<lambda>t. calculateRiskScore now t = k \<and> 4 \<le> k) tasks"
  by (induction tasks) (auto simp: risk_step_Nil)

lemma entry_in_unsorted:
  "e \<in> set (concat (map (\<lambda>t. risk_step now t []) tasks)) \<longleftrightarrow>
   (\<exists>t \<in> set tasks. 4 \<le> calculateRiskScore now t \<and>
      e = \<lparr>task = t, riskScore = calculateRiskScore now t,
             severity = (if 7 \<le> calculateRiskScore now t then ''high'' else ''medium''),
             reasons = getRiskReasons now t (calculateRiskScore now t)\<rparr>)"
  by (auto simp: risk_step_Nil split: if_splits)

lemma entry_in_detectRisks:
  "e \<in> set (detectRisks now tasks) \<longleftrightarrow>
   (\<exists>t \<in> set tasks. 4 \<le> calculateRiskScore now t \<and>
      e = \<lparr>task = t, riskScore = calculateRiskScore now t,
             severity = (if 7 \<le> calculateRiskScore now t then ''high'' else ''medium''),
             reasons = getRiskReasons now t (calculateRiskScore now t)\<rparr>)"
  by (simp only: detectRisks_unsorted set_sort_desc entry_in_unsorted)

lemma score_lower:
  assumes "newDate (due_date t) = Some d" "d < now"
  shows "d + msPerDay \<le> now \<Longrightarrow> 5 \<le> calculateRiskScore now t"
    and "field_lt (progress t) 80 \<Longrightarrow> 4 \<le> calculateRiskScore now t"
proof -
  have le1: "ceilDays (d - now) \<le> 1"
    using ceilDays_le_zero [of "d - now"] assms by simp
  { assume "d + msPerDay \<le> now"
    then have "ceilDays (d - now) < 0" by (simp add: ceilDays_neg_iff)
    then show "5 \<le> calculateRiskScore now t"
      using assms by (simp add: calculateRiskScore_def daysUntil_def Let_def) }
  { assume "field_lt (progress t) 80"
    then show "4 \<le> calculateRiskScore now t"
      using assms le1 by (simp add: calculateRiskScore_def daysUntil_def Let_def) }
qed

text \<open>
  C1, as the source has it.  The scorer counts whole days: the overdue bonus is given when
  \<^verbatim>\<open>daysUntilDue < 0\<close>, that is when the due date lies a full day or more before the clock
  reading.  A task whose due date lies before the clock reading has a risk score of at
  least 4, and so an entry of severity medium or high in the list of \<^verbatim>\<open>detectRisks\<close>,
  when its due date is a full day back or its progress is below 80 (\<^verbatim>\<open>null\<close> counts as
  0).  The status of the task plays no part.
\<close>

theorem overdue_task_is_reported:
  assumes "newDate (due_date t) = Some d" and "d < now"
    and "d + msPerDay \<le> now \<or> field_lt (progress t) 80"
  shows "4 \<le> calculateRiskScore now t \<and>
         (t \<in> set tasks \<longrightarrow>
            (\<exists>e \<in> set (detectRisks now tasks). task e = t \<and>
               (severity e = ''medium'' \<or> severity e = ''high'')))"
proof -
  have s: "4 \<le> calculateRiskScore now t"
    using assms score_lower [OF assms(1,2)] by fastforce
  show ?thesis
  proof (intro conjI impI)
    show "4 \<le> calculateRiskScore now t" by (rule s)
  next
    assume "t \<in> set tasks"
    let ?e = "\<lparr>task = t, riskScore = calculateRiskScore now t,
             severity = (if 7 \<le> calculateRiskScore now t then ''high'' else ''medium''),
             reasons = getRiskReasons now t (calculateRiskScore now t)\<rparr>"
    have "?e \<in> set (detectRisks now tasks)"
      unfolding entry_in_detectRisks using \<open>t \<in> set tasks\<close> s by blast
    moreover have "task ?e = t \<and> (severity ?e = ''medium'' \<or> severity ?e = ''high'')"
      by simp
    ultimately show "\<exists>e \<in> set (detectRisks now tasks). task e = t \<and>
               (severity e = ''medium'' \<or> severity e = ''high'')" by blast
  qed
qed

text \<open>The theorem at a task that is two days overdue.\<close>

theorem overdue_task_is_reported_witness:
  "newDate (due_date plain_task) = Some 0 \<and> 0 < day 2 \<and> 0 + msPerDay \<le> day 2 \<and>
   4 \<le> calculateRiskScore (day 2) plain_task \<and>
   (\<exists>e \<in> set (detectRisks (day 2) [plain_task]). task e = plain_task \<and>
      (severity e = ''medium'' \<or> severity e = ''high''))"
proof -
  have h1: "newDate (due_date plain_task) = Some 0" by (simp add: plain_task_def)
  have h2: "0 < day 2" by (simp add: day_def)
  have h3: "0 + msPerDay \<le> day 2 \<or> field_lt (progress plain_task) 80"
    by (simp add: day_def msPerDay_def)
  have h4: "0 + msPerDay \<le> day 2" by (simp add: day_def msPerDay_def)
  show ?thesis
    using overdue_task_is_reported [OF h1 h2 h3, of "[plain_task]"] h1 h2 h4 by simp
qed

text \<open>
  C1 as stated fails: a pending task that fell due at midnight, with progress 90, scored
  at noon of the same day.  Its due date is in the past, its day count is zero, its score
  is 0 and \<^verbatim>\<open>detectRisks\<close> has no entry for it.
\<close>

theorem due_today_not_reported:
  "newDate (due_date plain_task) = Some 0 \<and> 0 < noon \<and> status plain_task = ''pending'' \<and>
   calculateRiskScore noon plain_task = 0 \<and> detectRisks noon [plain_task] = []"
  by code_simp

text \<open>
  C2, as the source has it.  \<^verbatim>\<open>detectRisks\<close> does not look at the status of a task (its
  caller selects the pending and in-progress rows).  Every entry of the result belongs to a
  task of the input, carries the score of that task, and that score is at least 4; the
  entries are in descending order of \<^verbatim>\<open>riskScore\<close>; and for every score \<open>k\<close> the tasks of
  the entries with that score are exactly the input tasks with score \<open>k \<ge> 4\<close>, in input
  order.
\<close>

theorem detectRisks_threshold_sorted_stable:
  "(\<forall>e \<in> set (detectRisks now tasks).
      task e \<in> set tasks \<and> riskScore e = calculateRiskScore now (task e) \<and> 4 \<le> riskScore e)
   \<and> sorted_wrt (\<lambda>a b. riskScore b \<le> riskScore a) (detectRisks now tasks)
   \<and> (\<forall>k. map task (filter (\<lambda>e. riskScore e = k) (detectRisks now tasks)) =
            filter (\<lambda>t. calculateRiskScore now t = k \<and> 4 \<le> k) tasks)"
proof (intro conjI ballI allI)
  fix e assume "e \<in> set (detectRisks now tasks)"
  then obtain t where "t \<in> set tasks" "4 \<le> calculateRiskScore now t"
    "e = \<lparr>task = t, riskScore = calculateRiskScore now t,
             severity = (if 7 \<le> calculateRiskScore now t then ''high'' else ''medium''),
             reasons = getRiskReasons now t (calculateRiskScore now t)\<rparr>"
    unfolding entry_in_detectRisks by blast
  then show "task e \<in> set tasks" "riskScore e = calculateRiskScore now (task e)"
    "4 \<le> riskScore e"
    by simp_all
next
  show "sorted_wrt (\<lambda>a b. riskScore b \<le> riskScore a) (detectRisks now tasks)"
    by (simp only: detectRisks_unsorted descending_sort_desc)
next
  fix k
  show "map task (filter (\<lambda>e. riskScore e = k) (detectRisks now tasks)) =
        filter (\<lambda>t. calculateRiskScore now t = k \<and> 4 \<le> k) tasks"
    by (simp only: detectRisks_unsorted sort_desc_stable entries_by_score)
qed

text \<open>
  The theorem at four tasks scored two days after their due date: the third is due later
  and is left out, the second has the highest score and comes first, the first and the
  fourth tie and keep their order.
\<close>

theorem detectRisks_threshold_sorted_stable_witness:
  "map riskScore (detectRisks (day 2) example_tasks) = [9, 5, 5] \<and>
   sorted_wrt (\<lambda>a b. riskScore b \<le> riskScore a) (detectRisks (day 2) example_tasks) \<and>
   map task (filter (\<lambda>e. riskScore e = 5) (detectRisks (day 2) example_tasks)) =
     filter (\<lambda>t. calculateRiskScore (day 2) t = 5 \<and> 4 \<le> (5::int)) example_tasks"
proof -
  have "map riskScore (detectRisks (day 2) example_tasks) = [9, 5, 5]" by code_simp
  then show ?thesis
    using detectRisks_threshold_sorted_stable [of "day 2" example_tasks] by blast
qed

text \<open>
  C2 as stated fails on the status: a completed task that is two days overdue has an
  entry.
\<close>

theorem completed_task_is_reported:
  "status completed_task = ''completed'' \<and>
   map task (detectRisks (day 2) [completed_task]) = [completed_task]"
  by code_simp


section \<open>Risk score\<close>







section \<open>Completion prediction\<close>

text \<open>
  The arithmetic at work: one tenth as a double; eleven days of twenty as a percentage,
  which is not 55 but the next double above it, so that progress 65 is ahead by a little
  less than 10; and twenty-three days of forty, which is a little less than 57.5 and is
  reported as 57.
\<close>

lemma double_examples:
  "to_double (1 / 10) = Fin (3602879701896397 / 36028797018963968)"
  "js_div (Fin 11) (Fin 20) = Fin (2476979795053773 / 4503599627370496)"
  "js_mul (js_div (Fin 11) (Fin 20)) (Fin 100) = Fin (7740561859543041 / 140737488355328)"
  "js_sub (Fin 65) (Fin (7740561859543041 / 140737488355328)) =
     Fin (1407374883553279 / 140737488355328)"
  "js_round (js_mul (js_div (Fin 23) (Fin 40)) (Fin 100)) = Fin 57"
  by code_simp+

text \<open>
  C7.  The status and the confidence returned by \<^verbatim>\<open>predictCompletion\<close> are those of the
  first of the five rules, taken in the order of the description, whose condition holds;
  so they are one of the five pairs \<^verbatim>\<open>overdue\<close> with 100, \<^verbatim>\<open>ahead_of_schedule\<close> with 90,
  \<^verbatim>\<open>on_track\<close> with 80, \<^verbatim>\<open>at_risk\<close> with 70 and \<^verbatim>\<open>behind_schedule\<close> with 85; and the
  status is \<^verbatim>\<open>overdue\<close> exactly when the returned \<^verbatim>\<open>metrics.daysRemaining\<close> is negative.
  The conditions are evaluated on doubles, NaN failing every comparison.
\<close>

theorem predictCompletion_first_match:
  "first_match (classification_rules (spec_daysRemaining now it) (spec_progressDelta now it)) =
     Some (pred_status (predictCompletion now it), confidence (predictCompletion now it)) \<and>
   (pred_status (predictCompletion now it), confidence (predictCompletion now it)) \<in>
     set [(''overdue'', 100), (''ahead_of_schedule'', 90), (''on_track'', 80),
          (''at_risk'', 70), (''behind_schedule'', 85)] \<and>
   (pred_status (predictCompletion now it) = ''overdue'') =
     js_lt (daysRemaining (pred_metrics (predictCompletion now it))) (Fin 0)"
  by (simp add: predictCompletion_def classification_rules_def spec_daysRemaining_def
      spec_progressDelta_def spec_expectedProgress_def Let_def)

text \<open>
  The theorem at an item of twenty days, eleven days in, with progress 65: the progress
  delta is \<open>10 - 2^-47\<close>, the second rule fails and the third gives \<^verbatim>\<open>on_track\<close> with 80.
\<close>

theorem predictCompletion_first_match_witness:
  "spec_progressDelta (day 11) sprint_item = Fin (1407374883553279 / 140737488355328) \<and>
   first_match (classification_rules (spec_daysRemaining (day 11) sprint_item)
                                     (spec_progressDelta (day 11) sprint_item)) =
     Some (''on_track'', 80) \<and>
   pred_status (predictCompletion (day 11) sprint_item) = ''on_track'' \<and>
   confidence (predictCompletion (day 11) sprint_item) = 80"
proof -
  have "spec_progressDelta (day 11) sprint_item = Fin (1407374883553279 / 140737488355328)"
    by code_simp
  moreover have "pred_status (predictCompletion (day 11) sprint_item) = ''on_track''"
    by code_simp
  moreover have "confidence (predictCompletion (day 11) sprint_item) = 80"
    by code_simp
  ultimately show ?thesis
    using predictCompletion_first_match [of "day 11" sprint_item] by simp
qed

text \<open>An item halfway through thirty days with progress 80 is ahead of schedule.\<close>

lemma month_item_prediction:
  "pred_status (predictCompletion (day 15) month_item) = ''ahead_of_schedule'' \<and>
   confidence (predictCompletion (day 15) month_item) = 90 \<and>
   pred_metrics (predictCompletion (day 15) month_item) =
     \<lparr>expectedProgress = Fin 50, actualProgress = Fin 80, progressDelta = Fin 30,
      daysRemaining = Fin 15\<rparr>"
  by code_simp

text \<open>
  C4: what the source does for an item whose \<^verbatim>\<open>created_at\<close> equals its \<^verbatim>\<open>due_date\<close>.
  There is no guard for \<^verbatim>\<open>totalDays = 0\<close>: the division yields NaN when the clock reads
  the same instant and an infinity twelve hours later, and these values are returned in
  \<^verbatim>\<open>metrics.expectedProgress\<close> and \<^verbatim>\<open>metrics.progressDelta\<close>.
\<close>

theorem zero_span_prediction:
  "created_at zero_span_item = due_date zero_span_item \<and>
   pred_metrics (predictCompletion 0 zero_span_item) =
     \<lparr>expectedProgress = NaN, actualProgress = Fin 50, progressDelta = NaN, daysRemaining = Fin 0\<rparr> \<and>
   pred_metrics (predictCompletion noon zero_span_item) =
     \<lparr>expectedProgress = PosInf, actualProgress = Fin 50, progressDelta = NegInf,
      daysRemaining = NegZero\<rparr>"
  by code_simp

text \<open>For every such item and every clock reading the expected progress is not finite.\<close>

lemma zero_span_never_finite:
  assumes "created_at it = Val d" "due_date it = Val d"
  shows "expectedProgress (pred_metrics (predictCompletion now it)) \<in> {PosInf, NegInf, NaN}"
proof -
  have t: "daysBetween (Some d) (Some d) = Fin 0"
    by (simp add: daysBetween_def ceilDays_def)
  obtain e where e: "daysBetween (Some now) (Some d) = e" by simp
  have "e \<noteq> NaN \<and> \<not> is_inf e"
    using e by (auto simp: daysBetween_def split: if_splits)
  then have "js_div e (Fin 0) \<in> {PosInf, NegInf, NaN}"
    by (cases e) (auto simp: js_div_def mk_inf_def)
  then have "js_round (js_mul (js_div e (Fin 0)) (Fin 100)) \<in> {PosInf, NegInf, NaN}"
    by (auto simp: js_mul_def mk_inf_def)
  then show ?thesis
    using assms t e by (simp add: predictCompletion_def Let_def split_def)
qed


section \<open>Assignee suggestion\<close>

lemma score_member_nonneg: "0 \<le> score (score_member now taskData existingTasks m)"
  by (simp add: score_member_def Let_def)

text \<open>
  C8.  For a team with at least one member \<^verbatim>\<open>suggestAssignee\<close> returns a candidate; its
  score is not negative; it is the first candidate, in the order of the members, whose
  score is the greatest (every candidate before it has a smaller score, none after it has
  a greater one); every member's score is
  \<open>100 - 15 * activeTasks - 25 * overdueCount + 20 * matchingSkills - 10 * upcomingDeadlines\<close>
  clamped below at 0; and the ranked list is in descending order of score, candidates with
  equal scores keeping the order of the members.
\<close>

theorem suggestAssignee_best:
  assumes "teamMembers \<noteq> []"
  shows "\<exists>best us vs.
     suggestAssignee now taskData teamMembers existingTasks = Some best \<and>
     0 \<le> score best \<and>
     map (score_member now taskData existingTasks) teamMembers = us @ best # vs \<and>
     (\<forall>u \<in> set us. score u < score best) \<and>
     (\<forall>v \<in> set vs. score v \<le> score best) \<and>
     (\<forall>m \<in> set teamMembers.
        score (score_member now taskData existingTasks m) =
          max 0 (100 - 15 * int (length (memberTasksOf m existingTasks))
                     - 25 * int (length (filter (\<lambda>t. num_lt (newDate (due_date t)) now)
                                           (memberTasksOf m existingTasks)))
                     + 20 * int (matchingSkills taskData m)
                     - 10 * int (length (filter (\<lambda>t. num_le (daysUntil now (due_date t)) 3)
                                           (memberTasksOf m existingTasks))))) \<and>
     descending score (rankedCandidates now taskData teamMembers existingTasks) \<and>
     (\<forall>k. filter (\<lambda>c. score c = k) (rankedCandidates now taskData teamMembers existingTasks) =
          filter (\<lambda>c. score c = k) (map (score_member now taskData existingTasks) teamMembers))"
proof -
  let ?cs = "map (score_member now taskData existingTasks) teamMembers"
  have "sort_desc score ?cs \<noteq> []" using assms by (simp add: sort_desc_eq_Nil)
  then obtain best rest where s: "sort_desc score ?cs = best # rest"
    by (cases "sort_desc score ?cs") auto
  obtain us vs where d: "?cs = us @ best # vs" "\<forall>u \<in> set us. score u < score best"
    "\<forall>v \<in> set vs. score v \<le> score best"
    using head_is_first_greatest [OF s] by blast
  have "best \<in> set ?cs" using d(1) by simp
  then have nn: "0 \<le> score best" using score_member_nonneg by auto
  have r: "suggestAssignee now taskData teamMembers existingTasks = Some best"
    using s by (simp add: suggestAssignee_def rankedCandidates_def)
  have f: "\<forall>m \<in> set teamMembers.
        score (score_member now taskData existingTasks m) =
          max 0 (100 - 15 * int (length (memberTasksOf m existingTasks))
                     - 25 * int (length (filter (\<lambda>t. num_lt (newDate (due_date t)) now)
                                           (memberTasksOf m existingTasks)))
                     + 20 * int (matchingSkills taskData m)
                     - 10 * int (length (filter (\<lambda>t. num_le (daysUntil now (due_date t)) 3)
                                           (memberTasksOf m existingTasks))))"
    by (simp add: score_member_def Let_def mult.commute)
  have srt: "descending score (rankedCandidates now taskData teamMembers existingTasks)"
    unfolding rankedCandidates_def by (rule descending_sort_desc)
  have st: "\<forall>k. filter (\<lambda>c. score c = k) (rankedCandidates now taskData teamMembers existingTasks) =
          filter (\<lambda>c. score c = k) ?cs"
    unfolding rankedCandidates_def by (simp add: sort_desc_stable)
  show ?thesis using r nn d f srt st by blast
qed

text \<open>
  The theorem at three members: Ann has four active tasks, Bob and Cy have none and tie
  at 100; Bob comes first in the input and is returned.
\<close>

theorem suggestAssignee_best_witness:
  "[ann, bob, cy] \<noteq> [] \<and>
   map score (map (score_member (day 2) new_task team_tasks) [ann, bob, cy]) = [25, 100, 100] \<and>
   map_option member (suggestAssignee (day 2) new_task [ann, bob, cy] team_tasks) = Some bob \<and>
   (\<exists>best. suggestAssignee (day 2) new_task [ann, bob, cy] team_tasks = Some best \<and>
      0 \<le> score best)"
proof -
  have ne: "[ann, bob, cy] \<noteq> []" by simp
  have "map score (map (score_member (day 2) new_task team_tasks) [ann, bob, cy]) = [25, 100, 100]"
    by code_simp
  moreover have "map_option member (suggestAssignee (day 2) new_task [ann, bob, cy] team_tasks) = Some bob"
    by code_simp
  ultimately show ?thesis
    using suggestAssignee_best [OF ne, of "day 2" new_task team_tasks] by blast
qed


section \<open>Workload balancing\<close>

lemma balance_sorted_Cons:
  assumes "workload = first # rest"
  shows "balance_sorted workload =
     (if 3 \<le> taskCount first - taskCount (last workload)
      then Inr (Rebalance first (last workload)
             (''Consider reassigning tasks from '' @ name (load_member first) @ '' ('' @
              show_int (taskCount first) @ '' tasks) to '' @
              name (load_member (last workload)) @ '' ('' @
              show_int (taskCount (last workload)) @ '' tasks)''))
      else Inr (Balanced ''Workload is balanced across team''))"
proof -
  have "workload ! (length workload - 1) = last workload"
    using assms by (simp add: last_conv_nth)
  then show ?thesis using assms by (simp add: balance_sorted_def Let_def)
qed

text \<open>
  C9.  For a team with at least one member, let \<open>maxLoad\<close> and \<open>minLoad\<close> be the greatest and
  the least number of active tasks of a member.  If \<open>maxLoad - minLoad \<ge> 3\<close> the result has
  \<^verbatim>\<open>needsBalancing: true\<close>, its \<^verbatim>\<open>overloaded\<close> entry is that of a member with \<open>maxLoad\<close>
  tasks and its \<^verbatim>\<open>underutilized\<close> entry that of a member with \<open>minLoad\<close> tasks.  Otherwise
  the result is \<^verbatim>\<open>needsBalancing: false\<close> with the message
  \<^verbatim>\<open>Workload is balanced across team\<close>.
\<close>

theorem workload_balancing_threshold:
  assumes "teamMembers \<noteq> []"
  shows "\<exists>maxLoad minLoad.
     maxLoad = Max (set (map (\<lambda>m. int (length (memberTasksOf m tasks))) teamMembers)) \<and>
     minLoad = Min (set (map (\<lambda>m. int (length (memberTasksOf m tasks))) teamMembers)) \<and>
     (3 \<le> maxLoad - minLoad \<longrightarrow>
        (\<exists>r. suggestWorkloadBalancing teamMembers tasks = Inr r \<and> needsBalancing r \<and>
           load_member (overloaded_entry r) \<in> set teamMembers \<and>
           overloaded_entry r = member_load tasks (load_member (overloaded_entry r)) \<and>
           taskCount (overloaded_entry r) = maxLoad \<and>
           load_member (underutilized r) \<in> set teamMembers \<and>
           underutilized r = member_load tasks (load_member (underutilized r)) \<and>
           taskCount (underutilized r) = minLoad)) \<and>
     (maxLoad - minLoad < 3 \<longrightarrow>
        suggestWorkloadBalancing teamMembers tasks =
          Inr (Balanced ''Workload is balanced across team''))"
proof -
  let ?loads = "map (member_load tasks) teamMembers"
  let ?counts = "map (\<lambda>m. int (length (memberTasksOf m tasks))) teamMembers"
  have counts: "set ?counts = taskCount ` set ?loads"
    by (simp add: member_load_def Let_def image_image)
  have lne: "?loads \<noteq> []" using assms by simp
  have "sort_desc taskCount ?loads \<noteq> []" using lne by (simp add: sort_desc_eq_Nil)
  then obtain first rest where s: "sort_desc taskCount ?loads = first # rest"
    by (cases "sort_desc taskCount ?loads") auto
  define lowest where "lowest = last (sort_desc taskCount ?loads)"
  have first_in: "first \<in> set ?loads"
    using set_sort_desc [of taskCount ?loads] s by (metis list.set_intros(1))
  have lowest_in: "lowest \<in> set ?loads"
    using set_sort_desc [of taskCount ?loads] s lowest_def by (metis last_in_set list.distinct(1))
  have mx: "Max (set ?counts) = taskCount first"
  proof (rule Max_eqI)
    show "finite (set ?counts)" by simp
    show "taskCount first \<in> set ?counts" using first_in counts by blast
    fix y assume "y \<in> set ?counts"
    then obtain e where "e \<in> set ?loads" "y = taskCount e" using counts by blast
    then show "y \<le> taskCount first" using head_is_greatest [OF s] by blast
  qed
  have mn: "Min (set ?counts) = taskCount lowest"
  proof (rule Min_eqI)
    show "finite (set ?counts)" by simp
    show "taskCount lowest \<in> set ?counts" using lowest_in counts by blast
    fix y assume "y \<in> set ?counts"
    then obtain e where "e \<in> set ?loads" "y = taskCount e" using counts by blast
    then show "taskCount lowest \<le> y"
      using last_is_least [OF lne, of e taskCount] lowest_def by simp
  qed
  have res: "suggestWorkloadBalancing teamMembers tasks =
     (if 3 \<le> taskCount first - taskCount lowest
      then Inr (Rebalance first lowest
             (''Consider reassigning tasks from '' @ name (load_member first) @ '' ('' @
              show_int (taskCount first) @ '' tasks) to '' @
              name (load_member lowest) @ '' ('' @
              show_int (taskCount lowest) @ '' tasks)''))
      else Inr (Balanced ''Workload is balanced across team''))"
    unfolding suggestWorkloadBalancing_def lowest_def by (rule balance_sorted_Cons [OF s])
  have own: "e \<in> set ?loads \<Longrightarrow>
     load_member e \<in> set teamMembers \<and> e = member_load tasks (load_member e)" for e
    by (auto simp: member_load_def Let_def)
  have big: "3 \<le> Max (set ?counts) - Min (set ?counts) \<longrightarrow>
        (\<exists>r. suggestWorkloadBalancing teamMembers tasks = Inr r \<and> needsBalancing r \<and>
           load_member (overloaded_entry r) \<in> set teamMembers \<and>
           overloaded_entry r = member_load tasks (load_member (overloaded_entry r)) \<and>
           taskCount (overloaded_entry r) = Max (set ?counts) \<and>
           load_member (underutilized r) \<in> set teamMembers \<and>
           underutilized r = member_load tasks (load_member (underutilized r)) \<and>
           taskCount (underutilized r) = Min (set ?counts))"
  proof
    assume "3 \<le> Max (set ?counts) - Min (set ?counts)"
    then have "3 \<le> taskCount first - taskCount lowest" unfolding mx mn .
    then have "suggestWorkloadBalancing teamMembers tasks =
       Inr (Rebalance first lowest
             (''Consider reassigning tasks from '' @ name (load_member first) @ '' ('' @
              show_int (taskCount first) @ '' tasks) to '' @
              name (load_member lowest) @ '' ('' @
              show_int (taskCount lowest) @ '' tasks)''))"
      using res by simp
    then show "\<exists>r. suggestWorkloadBalancing teamMembers tasks = Inr r \<and> needsBalancing r \<and>
           load_member (overloaded_entry r) \<in> set teamMembers \<and>
           overloaded_entry r = member_load tasks (load_member (overloaded_entry r)) \<and>
           taskCount (overloaded_entry r) = Max (set ?counts) \<and>
           load_member (underutilized r) \<in> set teamMembers \<and>
           underutilized r = member_load tasks (load_member (underutilized r)) \<and>
           taskCount (underutilized r) = Min (set ?counts)"
      using own [OF first_in] own [OF lowest_in] mx mn by simp
  qed
  have small: "Max (set ?counts) - Min (set ?counts) < 3 \<longrightarrow>
        suggestWorkloadBalancing teamMembers tasks =
          Inr (Balanced ''Workload is balanced across team'')"
  proof
    assume "Max (set ?counts) - Min (set ?counts) < 3"
    then have "taskCount first - taskCount lowest < 3" unfolding mx mn .
    then have "\<not> 3 \<le> taskCount first - taskCount lowest" by simp
    then show "suggestWorkloadBalancing teamMembers tasks =
          Inr (Balanced ''Workload is balanced across team'')"
      using res by simp
  qed
  show ?thesis using big small by blast
qed

text \<open>
  The theorem at two teams: with Ann (four active tasks), Bob and Cy (none) the difference
  is 4; with Bob and Cy alone it is 0.
\<close>

theorem workload_balancing_threshold_witness:
  "[ann, bob, cy] \<noteq> [] \<and> [bob, cy] \<noteq> [] \<and>
   map (\<lambda>m. int (length (memberTasksOf m team_tasks))) [ann, bob, cy] = [4, 0, 0] \<and>
   map (\<lambda>m. int (length (memberTasksOf m team_tasks))) [bob, cy] = [0, 0] \<and>
   map_sum id (\<lambda>r. (needsBalancing r, load_member (overloaded_entry r),
                       load_member (underutilized r), suggestion r))
     (suggestWorkloadBalancing [ann, bob, cy] team_tasks) =
     Inr (True, ann, cy, ''Consider reassigning tasks from Ann (4 tasks) to Cy (0 tasks)'') \<and>
   suggestWorkloadBalancing [bob, cy] team_tasks =
     Inr (Balanced ''Workload is balanced across team'')"
proof -
  have n1: "[ann, bob, cy] \<noteq> []" and n2: "[bob, cy] \<noteq> []" by simp_all
  have c1: "map (\<lambda>m. int (length (memberTasksOf m team_tasks))) [ann, bob, cy] = [4, 0, 0]"
    by code_simp
  have c2: "map (\<lambda>m. int (length (memberTasksOf m team_tasks))) [bob, cy] = [0, 0]"
    by code_simp
  have m1: "Max (set [4, 0, 0 :: int]) - Min (set [4, 0, 0 :: int]) = 4" by simp
  have m2: "Max (set [0, 0 :: int]) - Min (set [0, 0 :: int]) = 0" by simp
  have e: "map_sum id (\<lambda>r. (needsBalancing r, load_member (overloaded_entry r),
                       load_member (underutilized r), suggestion r))
     (suggestWorkloadBalancing [ann, bob, cy] team_tasks) =
     Inr (True, ann, cy, ''Consider reassigning tasks from Ann (4 tasks) to Cy (0 tasks)'')"
    by code_simp
  have "suggestWorkloadBalancing [bob, cy] team_tasks =
     Inr (Balanced ''Workload is balanced across team'')"
    using workload_balancing_threshold [OF n2, of team_tasks] unfolding c2 m2 by simp
  then show ?thesis using n1 n2 c1 c2 e by blast
qed

text \<open>
  C5: what the source does for an empty team.  \<^verbatim>\<open>workload[0]\<close> is \<^verbatim>\<open>undefined\<close> and
  reading its \<^verbatim>\<open>taskCount\<close> throws; no result object is returned.
\<close>

theorem no_members_throws: "suggestWorkloadBalancing [] tasks = Inl TypeError"
  by (simp add: suggestWorkloadBalancing_def balance_sorted_def sort_desc_def)


section \<open>Dependence on the clock\<close>

lemma score_same_days:
  "daysUntil now1 (due_date t) = daysUntil now2 (due_date t) \<Longrightarrow>
   calculateRiskScore now1 t = calculateRiskScore now2 t"
  by (simp add: calculateRiskScore_def)

lemma reasons_same_days:
  "daysUntil now1 (due_date t) = daysUntil now2 (due_date t) \<Longrightarrow>
   getRiskReasons now1 t s = getRiskReasons now2 t s"
  by (simp add: getRiskReasons_def)

lemma risk_step_same_days:
  "daysUntil now1 (due_date t) = daysUntil now2 (due_date t) \<Longrightarrow>
   risk_step now1 t rs = risk_step now2 t rs"
  by (simp add: risk_step_def Let_def score_same_days [of now1 t now2] reasons_same_days [of now1 t now2])

lemma detectRisks_same_days:
  assumes "\<forall>t \<in> set tasks. daysUntil now1 (due_date t) = daysUntil now2 (due_date t)"
  shows "detectRisks now1 tasks = detectRisks now2 tasks"
proof -
  have "foldl (\<lambda>risks t. risk_step now1 t risks) [] tasks =
        foldl (\<lambda>risks t. risk_step now2 t risks) [] tasks"
  proof (rule foldl_cong)
    fix rs t assume "t \<in> set tasks"
    then have "daysUntil now1 (due_date t) = daysUntil now2 (due_date t)"
      using assms by blast
    then show "risk_step now1 t rs = risk_step now2 t rs" by (rule risk_step_same_days)
  qed simp_all
  then show ?thesis by (simp only: detectRisks_def)
qed

lemma predict_same_days:
  assumes "daysBetween (Some now1) (newDate (created_at it)) =
           daysBetween (Some now2) (newDate (created_at it))"
    and "daysBetween (newDate (due_date it)) (Some now1) =
         daysBetween (newDate (due_date it)) (Some now2)"
  shows "predictCompletion now1 it = predictCompletion now2 it"
  unfolding predictCompletion_def Let_def assms ..

lemma score_member_same_days:
  assumes "\<forall>t \<in> set existingTasks.
             daysUntil now1 (due_date t) = daysUntil now2 (due_date t) \<and>
             num_lt (newDate (due_date t)) now1 = num_lt (newDate (due_date t)) now2"
  shows "score_member now1 taskData existingTasks m = score_member now2 taskData existingTasks m"
proof -
  have sub: "set (memberTasksOf m existingTasks) \<subseteq> set existingTasks"
    by (auto simp: memberTasksOf_def)
  have a: "filter (\<lambda>t. num_lt (newDate (due_date t)) now1) (memberTasksOf m existingTasks) =
           filter (\<lambda>t. num_lt (newDate (due_date t)) now2) (memberTasksOf m existingTasks)"
    using assms sub by (intro filter_cong) auto
  have b: "filter (\<lambda>t. num_le (daysUntil now1 (due_date t)) 3) (memberTasksOf m existingTasks) =
           filter (\<lambda>t. num_le (daysUntil now2 (due_date t)) 3) (memberTasksOf m existingTasks)"
    using assms sub by (intro filter_cong) auto
  show ?thesis by (simp add: score_member_def a b)
qed

text \<open>
  C3, as the source has it.  \<^verbatim>\<open>calculateRiskScore\<close>, \<^verbatim>\<open>detectRisks\<close>,
  \<^verbatim>\<open>predictCompletion\<close> and \<^verbatim>\<open>suggestAssignee\<close> read the system clock themselves; their
  result is determined by their arguments together with the clock reading, and the reading
  enters only through whole-day counts (and, for \<^verbatim>\<open>suggestAssignee\<close>, the comparison of
  each due date with the reading): two calls with the same arguments return the same
  result whenever these agree.  \<^verbatim>\<open>suggestWorkloadBalancing\<close> reads no clock and is a
  function of its arguments alone.
\<close>

theorem clock_matters_through_day_counts:
  "(daysUntil now1 (due_date t) = daysUntil now2 (due_date t) \<longrightarrow>
      calculateRiskScore now1 t = calculateRiskScore now2 t) \<and>
   ((\<forall>t \<in> set tasks. daysUntil now1 (due_date t) = daysUntil now2 (due_date t)) \<longrightarrow>
      detectRisks now1 tasks = detectRisks now2 tasks) \<and>
   (daysBetween (Some now1) (newDate (created_at it)) =
      daysBetween (Some now2) (newDate (created_at it)) \<and>
    daysBetween (newDate (due_date it)) (Some now1) =
      daysBetween (newDate (due_date it)) (Some now2) \<longrightarrow>
      predictCompletion now1 it = predictCompletion now2 it) \<and>
   ((\<forall>t \<in> set existingTasks.
        daysUntil now1 (due_date t) = daysUntil now2 (due_date t) \<and>
        num_lt (newDate (due_date t)) now1 = num_lt (newDate (due_date t)) now2) \<longrightarrow>
      suggestAssignee now1 taskData teamMembers existingTasks =
      suggestAssignee now2 taskData teamMembers existingTasks)"
proof (intro conjI impI)
  assume "daysUntil now1 (due_date t) = daysUntil now2 (due_date t)"
  then show "calculateRiskScore now1 t = calculateRiskScore now2 t" by (rule score_same_days)
next
  assume "\<forall>t \<in> set tasks. daysUntil now1 (due_date t) = daysUntil now2 (due_date t)"
  then show "detectRisks now1 tasks = detectRisks now2 tasks" by (rule detectRisks_same_days)
next
  assume "daysBetween (Some now1) (newDate (created_at it)) =
      daysBetween (Some now2) (newDate (created_at it)) \<and>
    daysBetween (newDate (due_date it)) (Some now1) =
      daysBetween (newDate (due_date it)) (Some now2)"
  then show "predictCompletion now1 it = predictCompletion now2 it"
    using predict_same_days by blast
next
  assume "\<forall>t \<in> set existingTasks.
        daysUntil now1 (due_date t) = daysUntil now2 (due_date t) \<and>
        num_lt (newDate (due_date t)) now1 = num_lt (newDate (due_date t)) now2"
  then have "score_member now1 taskData existingTasks = score_member now2 taskData existingTasks"
    using score_member_same_days by blast
  then show "suggestAssignee now1 taskData teamMembers existingTasks =
      suggestAssignee now2 taskData teamMembers existingTasks"
    by (simp add: suggestAssignee_def rankedCandidates_def)
qed

text \<open>The theorem at two clock readings four milliseconds apart, within one day.\<close>

theorem clock_matters_through_day_counts_witness:
  "daysUntil (day 2 + 5) (due_date plain_task) = daysUntil (day 2 + 9) (due_date plain_task) \<and>
   calculateRiskScore (day 2 + 5) plain_task = calculateRiskScore (day 2 + 9) plain_task \<and>
   detectRisks (day 2 + 5) [plain_task] = detectRisks (day 2 + 9) [plain_task] \<and>
   predictCompletion (day 2 + 5) plain_task = predictCompletion (day 2 + 9) plain_task \<and>
   suggestAssignee (day 2 + 5) new_task [ann, bob, cy] [plain_task] =
     suggestAssignee (day 2 + 9) new_task [ann, bob, cy] [plain_task]"
proof -
  have d: "daysUntil (day 2 + 5) (due_date plain_task) = daysUntil (day 2 + 9) (due_date plain_task)"
    by code_simp
  have c: "daysBetween (Some (day 2 + 5)) (newDate (created_at plain_task)) =
             daysBetween (Some (day 2 + 9)) (newDate (created_at plain_task))"
    by code_simp
  have r: "daysBetween (newDate (due_date plain_task)) (Some (day 2 + 5)) =
             daysBetween (newDate (due_date plain_task)) (Some (day 2 + 9))"
    by code_simp
  have l: "num_lt (newDate (due_date plain_task)) (day 2 + 5) =
             num_lt (newDate (due_date plain_task)) (day 2 + 9)"
    by code_simp
  show ?thesis
    using clock_matters_through_day_counts
      [of "day 2 + 5" plain_task "day 2 + 9" "[plain_task]" plain_task "[plain_task]" new_task
          "[ann, bob, cy]"] d c r l
    by simp
qed

text \<open>
  C3 as stated fails: the same task scored at noon of its due day and two days later, and
  the same item predicted at these two readings.
\<close>

theorem clock_changes_results:
  "calculateRiskScore noon plain_task = 0 \<and> calculateRiskScore (day 2) plain_task = 5 \<and>
   detectRisks noon [plain_task] = [] \<and>
   map riskScore (detectRisks (day 2) [plain_task]) = [5] \<and>
   pred_status (predictCompletion noon plain_task) = ''behind_schedule'' \<and>
   pred_status (predictCompletion (day 2) plain_task) = ''overdue''"
  by code_simp

end
